theory Spec2Isabelle
  imports Complex_Main
begin

section \<open>Python strings and numbers\<close>

text \<open>
  A Python \<open>str\<close> is modelled as a \<open>string\<close> whose characters are read as ASCII code
  points. The character classes below are those of \<open>str.isalnum\<close>, \<open>str.isspace\<close>
  and \<open>str.lower\<close> on that range; code points above 127 belong to no class and have
  no case.
\<close>

definition ord :: "char \<Rightarrow> nat" where
  "ord c = of_char c"

definition is_digit :: "char \<Rightarrow> bool" where
  "is_digit c = (48 \<le> ord c \<and> ord c \<le> 57)"

definition is_upper :: "char \<Rightarrow> bool" where
  "is_upper c = (65 \<le> ord c \<and> ord c \<le> 90)"

definition is_lower :: "char \<Rightarrow> bool" where
  "is_lower c = (97 \<le> ord c \<and> ord c \<le> 122)"

definition is_alnum :: "char \<Rightarrow> bool" where
  "is_alnum c = (is_digit c \<or> is_upper c \<or> is_lower c)"

definition is_space :: "char \<Rightarrow> bool" where
  "is_space c = ((9 \<le> ord c \<and> ord c \<le> 13) \<or> (28 \<le> ord c \<and> ord c \<le> 32))"

definition isalnum :: "string \<Rightarrow> bool" where
  \<comment> \<open>\<open>s.isalnum()\<close>: false on the empty string.\<close>
  "isalnum s = (s \<noteq> [] \<and> list_all is_alnum s)"

definition lower_char :: "char \<Rightarrow> char" where
  "lower_char c =
     (if is_upper c then ''abcdefghijklmnopqrstuvwxyz'' ! (ord c - 65) else c)"

definition lower :: "string \<Rightarrow> string" where
  "lower s = map lower_char s"

definition strip :: "string \<Rightarrow> string" where
  "strip s = rev (dropWhile is_space (rev (dropWhile is_space s)))"

definition startswith :: "string \<Rightarrow> string \<Rightarrow> bool" where
  \<comment> \<open>\<open>s.startswith(p)\<close>\<close>
  "startswith s p = (take (length p) s = p)"

text \<open>\<open>str(i)\<close> for an integer: its decimal numeral.\<close>

fun str_nat :: "nat \<Rightarrow> string" where
  "str_nat n =
     (if n < 10 then [''0123456789'' ! n]
      else str_nat (n div 10) @ [''0123456789'' ! (n mod 10)])"

declare str_nat.simps [simp del]

definition str_int :: "int \<Rightarrow> string" where
  "str_int i = (if i < 0 then CHR ''-'' # str_nat (nat (- i)) else str_nat (nat i))"

text \<open>
  \<open>int(s)\<close> for a string: surrounding whitespace is dropped, one sign is allowed, and the
  digits may be grouped by single underscores. \<open>None\<close> stands for the \<open>ValueError\<close>
  of a string that is no numeral. The interpreter's optional limit on the number of
  digits is left out.
\<close>

fun parse_digits :: "string \<Rightarrow> bool \<Rightarrow> int \<Rightarrow> int option" where
  "parse_digits [] prev acc = (if prev then Some acc else None)"
| "parse_digits (c # cs) prev acc =
     (if is_digit c then parse_digits cs True (10 * acc + int (ord c - 48))
      else if c = CHR ''_'' \<and> prev then parse_digits cs False acc
      else None)"

definition int_of_str :: "string \<Rightarrow> int option" where
  "int_of_str s =
     (case strip s of
        [] \<Rightarrow> None
      | c # cs \<Rightarrow>
          if c = CHR ''-'' then map_option uminus (parse_digits cs False 0)
          else if c = CHR ''+'' then parse_digits cs False 0
          else parse_digits (c # cs) False 0)"

section \<open>Exceptions\<close>

text \<open>
  Every exception below is an instance of Python's \<open>Exception\<close>, so a clause
  \<open>except Exception\<close> catches each of them; what is not an \<open>Exception\<close> (a
  cancellation, an interrupt) is outside the model. \<open>ExpiredSignatureError\<close> and
  \<open>JWTClaimsError\<close> are subclasses of \<open>JWTError\<close>, \<open>UnpicklingError\<close> is a subclass
  of \<open>PickleError\<close>. A raise is the left injection of a sum.
\<close>

datatype exn =
    JWTError
  | ExpiredSignatureError
  | JWTClaimsError
  | ValueError string
  | TypeError
  | AttributeError
  | RuntimeError string
  | OverflowError
  | JSONDecodeError
  | PickleError
  | UnpicklingError
  | ValidationError
  | RedisError
  | DBAPIError
  | IntegrityError
  | InvalidRequestError
  | MultipleResultsFound
  | HTTPException nat string

fun is_JWTError :: "exn \<Rightarrow> bool" where
  "is_JWTError JWTError = True"
| "is_JWTError ExpiredSignatureError = True"
| "is_JWTError JWTClaimsError = True"
| "is_JWTError _ = False"

fun is_PickleError :: "exn \<Rightarrow> bool" where
  "is_PickleError PickleError = True"
| "is_PickleError UnpicklingError = True"
| "is_PickleError _ = False"

section \<open>The user model\<close>

text \<open>Timestamps are seconds on the clock; \<open>None\<close> is SQL \<open>NULL\<close>.\<close>

record user =
  id' :: int
  email :: string
  username :: string
  hashed_password :: string
  full_name :: "string option"
  is_active :: bool
  is_verified :: bool
  is_superuser :: bool
  last_login_at :: "int option"
  email_verified_at :: "int option"
  created_at :: int
  updated_at :: int
  deleted_at :: "int option"

definition validate_email :: "string \<Rightarrow> exn + string" where
  "validate_email e =
     (if e = [] \<or> CHR ''@'' \<notin> set e then Inl (ValueError ''Invalid email address'')
      else Inr (strip (lower e)))"

definition validate_username :: "string \<Rightarrow> exn + string" where
  "validate_username u =
     (if u = [] \<or> length u < 3 then
        Inl (ValueError ''Username must be at least 3 characters'')
      else if \<not> isalnum u \<and> CHR ''_'' \<notin> set u then
        Inl (ValueError ''Username can only contain letters, numbers, and underscores'')
      else Inr (strip (lower u)))"

definition soft_delete :: "int \<Rightarrow> user \<Rightarrow> user" where
  \<comment> \<open>\<open>SoftDeleteMixin.soft_delete\<close>; the first argument is \<open>datetime.utcnow()\<close>.\<close>
  "soft_delete now u = u\<lparr>deleted_at := Some now\<rparr>"

definition verify_email :: "int \<Rightarrow> user \<Rightarrow> user" where
  "verify_email now u = u\<lparr>is_verified := True, email_verified_at := Some now\<rparr>"

section \<open>Python values\<close>

text \<open>
  The values that travel through a token payload and through the cache. A finite float
  is the rational it denotes. \<open>PUser\<close> is an instance of the \<open>User\<close> class that is not
  bound to a database session (what unpickling yields).
\<close>

datatype pyfloat = Finite rat | PosInf | NegInf | NaN

datatype pyval =
    PNone
  | PBool bool
  | PInt int
  | PFloat pyfloat
  | PStr string
  | PBytes string
  | PList "pyval list"
  | PDict "(string \<times> pyval) list"
  | PUser user

fun truthy :: "pyval \<Rightarrow> bool" where
  "truthy PNone = False"
| "truthy (PBool b) = b"
| "truthy (PInt i) = (i \<noteq> 0)"
| "truthy (PFloat f) = (f \<noteq> Finite 0)"
| "truthy (PStr s) = (s \<noteq> [])"
| "truthy (PBytes s) = (s \<noteq> [])"
| "truthy (PList xs) = (xs \<noteq> [])"
| "truthy (PDict kvs) = (kvs \<noteq> [])"
| "truthy (PUser u) = True"

definition trunc :: "rat \<Rightarrow> int" where
  "trunc q = (if 0 \<le> q then \<lfloor>q\<rfloor> else \<lceil>q\<rceil>)"

fun py_int :: "pyval \<Rightarrow> exn + int" where
  \<comment> \<open>the built-in \<open>int(x)\<close>\<close>
  "py_int (PInt i) = Inr i"
| "py_int (PBool b) = Inr (if b then 1 else 0)"
| "py_int (PFloat (Finite q)) = Inr (trunc q)"
| "py_int (PFloat NaN) = Inl (ValueError ''cannot convert float NaN to integer'')"
| "py_int (PFloat _) = Inl OverflowError"
| "py_int (PStr s) =
     (case int_of_str s of
        Some i \<Rightarrow> Inr i
      | None \<Rightarrow> Inl (ValueError ''invalid literal for int() with base 10''))"
| "py_int (PBytes s) =
     (case int_of_str s of
        Some i \<Rightarrow> Inr i
      | None \<Rightarrow> Inl (ValueError ''invalid literal for int() with base 10''))"
| "py_int _ = Inl TypeError"

definition dict_get :: "(string \<times> pyval) list \<Rightarrow> string \<Rightarrow> pyval" where
  \<comment> \<open>\<open>d.get(k)\<close>, \<open>None\<close> when the key is missing\<close>
  "dict_get d k = (case map_of d k of Some v \<Rightarrow> v | None \<Rightarrow> PNone)"

section \<open>Token verification\<close>

record token_data =
  user_id :: "int option"
  td_username :: "string option"
  td_email :: "string option"

text \<open>
  The fields of \<open>TokenData\<close> are \<open>Optional[str]\<close>: the schema takes \<open>None\<close> or a
  string and raises \<open>ValidationError\<close> on anything else.
\<close>

fun optional_str :: "pyval \<Rightarrow> exn + string option" where
  "optional_str PNone = Inr None"
| "optional_str (PStr s) = Inr (Some s)"
| "optional_str _ = Inl ValidationError"

text \<open>
  \<open>jwt.decode\<close> belongs to the token library; it is the parameter \<open>jwt_decode\<close>, which
  gives the payload of a token it accepts and raises otherwise.
\<close>

definition decode_access_token ::
  "(string \<Rightarrow> exn + (string \<times> pyval) list) \<Rightarrow> string \<Rightarrow> exn + token_data option" where
  "decode_access_token jwt_decode token =
     (case jwt_decode token of
        Inl e \<Rightarrow> if is_JWTError e then Inr None else Inl e
      | Inr payload \<Rightarrow>
          let sub = dict_get payload ''sub'';
              uname = dict_get payload ''username'';
              mail = dict_get payload ''email''
          in if sub = PNone then Inr None
             else (case py_int sub of
                     Inl e \<Rightarrow> Inl e
                   | Inr i \<Rightarrow>
                       (case optional_str uname of
                          Inl e \<Rightarrow> Inl e
                        | Inr un \<Rightarrow>
                            (case optional_str mail of
                               Inl e \<Rightarrow> Inl e
                             | Inr em \<Rightarrow>
                                 Inr (Some \<lparr>user_id = Some i, td_username = un,
                                            td_email = em\<rparr>)))))"

section \<open>The world: relational store, key-value backend, clock\<close>

text \<open>
  The relational store is the list of rows of the \<open>users\<close> table; the key-value
  backend is a Redis server seen through its client. Each call to a backend may
  raise: \<open>db_faults\<close> and \<open>redis_faults\<close> say, call by call, whether the next call does
  (\<open>Some e\<close>) or not; an empty list means no fault. The clock counts whole seconds, the
  unit of \<open>EXPIRE\<close> and \<open>TTL\<close>. Every backend call is recorded in \<open>trace\<close> with
  whether it completed.
\<close>

datatype rval = RInt int | RStr string

datatype command =
    GET string
  | SET string
  | SETEX string int
  | DEL string
  | INCR string
  | EXPIRE string int
  | TTL string
  | SELECT
  | COMMIT
  | REFRESH

record world =
  rows :: "user list"
  db_faults :: "exn option list"
  redis_connected :: bool
  kv :: "string \<rightharpoonup> rval"
  deadline :: "string \<rightharpoonup> int"
  redis_faults :: "exn option list"
  clock :: int
  trace :: "(command \<times> bool) list"

type_synonym 'a io = "world \<Rightarrow> (exn + 'a) \<times> world"

definition ret :: "'a \<Rightarrow> 'a io" where
  "ret x w = (Inr x, w)"

definition raise :: "exn \<Rightarrow> 'a io" where
  "raise e w = (Inl e, w)"

definition lift :: "exn + 'a \<Rightarrow> 'a io" where
  "lift r w = (r, w)"

definition seq :: "'a io \<Rightarrow> ('a \<Rightarrow> 'b io) \<Rightarrow> 'b io" where
  \<comment> \<open>one statement after another; an exception skips what follows\<close>
  "seq m f w = (case m w of (Inl e, w') \<Rightarrow> (Inl e, w') | (Inr x, w') \<Rightarrow> f x w')"

definition try_except :: "'a io \<Rightarrow> (exn \<Rightarrow> bool) \<Rightarrow> 'a io \<Rightarrow> 'a io" where
  \<comment> \<open>\<open>try: m except <classes>: handler\<close>\<close>
  "try_except m caught handler w =
     (case m w of
        (Inl e, w') \<Rightarrow> if caught e then handler w' else (Inl e, w')
      | (Inr x, w') \<Rightarrow> (Inr x, w'))"

definition any_exception :: "exn \<Rightarrow> bool" where
  \<comment> \<open>\<open>except Exception\<close>\<close>
  "any_exception e = True"

definition succeeded :: "exn + 'a \<Rightarrow> bool" where
  "succeeded r = (case r of Inl e \<Rightarrow> False | Inr x \<Rightarrow> True)"

definition logged :: "command \<Rightarrow> 'a io \<Rightarrow> 'a io" where
  "logged c m w = (case m w of (r, w') \<Rightarrow> (r, w'\<lparr>trace := trace w' @ [(c, succeeded r)]\<rparr>))"

definition redis_fault :: "'a io \<Rightarrow> 'a io" where
  "redis_fault m w =
     (case redis_faults w of
        [] \<Rightarrow> m w
      | None # fs \<Rightarrow> m (w\<lparr>redis_faults := fs\<rparr>)
      | Some e # fs \<Rightarrow> (Inl e, w\<lparr>redis_faults := fs\<rparr>))"

definition db_fault :: "'a io \<Rightarrow> 'a io" where
  "db_fault m w =
     (case db_faults w of
        [] \<Rightarrow> m w
      | None # fs \<Rightarrow> m (w\<lparr>db_faults := fs\<rparr>)
      | Some e # fs \<Rightarrow> (Inl e, w\<lparr>db_faults := fs\<rparr>))"

subsection \<open>Redis commands\<close>

text \<open>A key whose deadline has passed is gone; the server drops it when it is next touched.\<close>

definition expired :: "world \<Rightarrow> string \<Rightarrow> bool" where
  "expired w k = (case deadline w k of Some d \<Rightarrow> d \<le> clock w | None \<Rightarrow> False)"

definition purge :: "string \<Rightarrow> world \<Rightarrow> world" where
  "purge k w =
     (if expired w k then w\<lparr>kv := (kv w)(k := None), deadline := (deadline w)(k := None)\<rparr>
      else w)"

definition present :: "rval \<Rightarrow> pyval" where
  \<comment> \<open>what \<open>GET\<close> hands to the caller\<close>
  "present v = (case v of RInt i \<Rightarrow> PStr (str_int i) | RStr s \<Rightarrow> PStr s)"

definition string2ll :: "string \<Rightarrow> int option" where
  \<comment> \<open>the server's reading of a stored string as a 64-bit integer\<close>
  "string2ll s =
     (let neg = (s \<noteq> [] \<and> hd s = CHR ''-'');
          ds = (if neg then tl s else s);
          n = foldl (\<lambda>a d. 10 * a + int (ord d - 48)) 0 ds;
          i = (if neg then - n else n)
      in if ds \<noteq> [] \<and> list_all is_digit ds \<and> str_int i = s
            \<and> - (2 ^ 63) \<le> i \<and> i \<le> 2 ^ 63 - 1
         then Some i else None)"

definition redis_get :: "string \<Rightarrow> pyval option io" where
  "redis_get k =
     logged (GET k) (redis_fault (\<lambda>w.
       let w' = purge k w in (Inr (map_option present (kv w' k)), w')))"

definition redis_set :: "string \<Rightarrow> rval \<Rightarrow> bool io" where
  "redis_set k v =
     logged (SET k) (redis_fault (\<lambda>w.
       (Inr True, w\<lparr>kv := (kv w)(k \<mapsto> v), deadline := (deadline w)(k := None)\<rparr>)))"

definition redis_setex :: "string \<Rightarrow> int \<Rightarrow> rval \<Rightarrow> bool io" where
  "redis_setex k secs v =
     logged (SETEX k secs) (redis_fault (\<lambda>w.
       if secs \<le> 0 then (Inl RedisError, w)
       else (Inr True,
             w\<lparr>kv := (kv w)(k \<mapsto> v), deadline := (deadline w)(k \<mapsto> clock w + secs)\<rparr>)))"

definition redis_delete :: "string \<Rightarrow> int io" where
  "redis_delete k =
     logged (DEL k) (redis_fault (\<lambda>w.
       let w' = purge k w in
       case kv w' k of
         None \<Rightarrow> (Inr 0, w')
       | Some v \<Rightarrow>
           (Inr 1, w'\<lparr>kv := (kv w')(k := None), deadline := (deadline w')(k := None)\<rparr>)))"

definition redis_incr :: "string \<Rightarrow> int io" where
  "redis_incr k =
     logged (INCR k) (redis_fault (\<lambda>w.
       let w' = purge k w;
           old = (case kv w' k of
                    None \<Rightarrow> Some 0
                  | Some (RInt i) \<Rightarrow> Some i
                  | Some (RStr s) \<Rightarrow> string2ll s)
       in case old of
            None \<Rightarrow> (Inl RedisError, w')
          | Some i \<Rightarrow>
              if i \<ge> 2 ^ 63 - 1 then (Inl RedisError, w')
              else (Inr (i + 1), w'\<lparr>kv := (kv w')(k \<mapsto> RInt (i + 1))\<rparr>)))"

definition redis_expire :: "string \<Rightarrow> int \<Rightarrow> bool io" where
  "redis_expire k secs =
     logged (EXPIRE k secs) (redis_fault (\<lambda>w.
       let w' = purge k w in
       case kv w' k of
         None \<Rightarrow> (Inr False, w')
       | Some v \<Rightarrow>
           if secs \<le> 0
           then (Inr True, w'\<lparr>kv := (kv w')(k := None), deadline := (deadline w')(k := None)\<rparr>)
           else (Inr True, w'\<lparr>deadline := (deadline w')(k \<mapsto> clock w' + secs)\<rparr>)))"

definition redis_ttl :: "string \<Rightarrow> int io" where
  "redis_ttl k =
     logged (TTL k) (redis_fault (\<lambda>w.
       let w' = purge k w in
       case kv w' k of
         None \<Rightarrow> (Inr (- 2), w')
       | Some v \<Rightarrow>
           (case deadline w' k of
              None \<Rightarrow> (Inr (- 1), w')
            | Some d \<Rightarrow> (Inr (d - clock w'), w'))))"

subsection \<open>Database session\<close>

text \<open>
  The session is created with \<open>autoflush=False\<close> and \<open>expire_on_commit=False\<close>.
  \<open>db_commit\<close> takes the instances the session tracks that were changed since they
  were loaded and writes them to their rows; the \<open>email\<close> and \<open>username\<close> columns are
  unique over all rows. An instance that was not loaded through the session is not
  written by a commit, and \<open>refresh\<close> rejects it.
\<close>

definition db_select :: "(user \<Rightarrow> bool) \<Rightarrow> user list io" where
  "db_select P = logged SELECT (db_fault (\<lambda>w. (Inr (filter P (rows w)), w)))"

definition scalar_one_or_none :: "user list \<Rightarrow> exn + user option" where
  "scalar_one_or_none rs =
     (case rs of [] \<Rightarrow> Inr None | [r] \<Rightarrow> Inr (Some r) | _ \<Rightarrow> Inl MultipleResultsFound)"

definition write_rows :: "int \<Rightarrow> user list \<Rightarrow> user list \<Rightarrow> user list" where
  \<comment> \<open>the \<open>UPDATE\<close>s of a flush; \<open>updated_at\<close> has \<open>onupdate=datetime.utcnow\<close>\<close>
  "write_rows now dirty rs =
     map (\<lambda>r. case find (\<lambda>u. id' u = id' r) dirty of
                 Some u \<Rightarrow> u\<lparr>updated_at := now\<rparr>
               | None \<Rightarrow> r) rs"

definition db_commit :: "user list \<Rightarrow> unit io" where
  "db_commit dirty =
     logged COMMIT (db_fault (\<lambda>w.
       let rs = write_rows (clock w) dirty (rows w) in
       if dirty = [] then (Inr (), w)
       else if distinct (map email rs) \<and> distinct (map username rs)
       then (Inr (), w\<lparr>rows := rs\<rparr>)
       else (Inl IntegrityError, w)))"

definition db_refresh :: "user \<Rightarrow> user io" where
  "db_refresh u =
     logged REFRESH (db_fault (\<lambda>w.
       case find (\<lambda>r. id' r = id' u) (rows w) of
         Some r \<Rightarrow> (Inr r, w)
       | None \<Rightarrow> (Inl InvalidRequestError, w)))"

section \<open>CacheManager\<close>

text \<open>
  The settings flag and the library functions the cache manager calls. \<open>json.loads\<close>,
  \<open>pickle.loads\<close>, \<open>json.dumps\<close>, \<open>pickle.dumps\<close> and the client's encoding of a
  scalar argument are parameters; each returns or raises. \<open>pwd_hash\<close> is
  \<open>pwd_context.hash\<close>.
\<close>

record env =
  enable_cache :: bool
  json_loads :: "pyval \<Rightarrow> exn + pyval"
  pickle_loads :: "pyval \<Rightarrow> exn + pyval"
  json_dumps :: "pyval \<Rightarrow> exn + string"
  pickle_dumps :: "pyval \<Rightarrow> exn + string"
  redis_encode :: "pyval \<Rightarrow> exn + rval"
  pwd_hash :: "string \<Rightarrow> exn + string"

definition redis_attr :: "'a io \<Rightarrow> 'a io" where
  \<comment> \<open>\<open>self._redis.<command>(...)\<close>: \<open>self._redis\<close> is \<open>None\<close> until \<open>connect()\<close>\<close>
  "redis_attr m w = (if redis_connected w then m w else (Inl AttributeError, w))"

definition get_client :: "unit io" where
  "get_client w =
     (if redis_connected w then (Inr (), w)
      else (Inl (RuntimeError ''Redis not connected. Call connect() first.''), w))"

definition cache_get :: "env \<Rightarrow> string \<Rightarrow> pyval \<Rightarrow> pyval io" where
  "cache_get env key dflt =
     (if \<not> enable_cache env then ret dflt
      else
        try_except
          (seq (redis_attr (redis_get key)) (\<lambda>value.
             case value of
               None \<Rightarrow> ret dflt
             | Some v \<Rightarrow>
                 try_except (lift (json_loads env v))
                   (\<lambda>e. e = JSONDecodeError \<or> e = TypeError)
                   (try_except (lift (pickle_loads env v))
                      (\<lambda>e. is_PickleError e \<or> e = TypeError)
                      (ret v))))
          any_exception
          (ret dflt))"

definition serialize :: "env \<Rightarrow> pyval \<Rightarrow> exn + rval" where
  "serialize env v =
     (case v of
        PDict d \<Rightarrow> map_sum id RStr (json_dumps env v)
      | PList l \<Rightarrow> map_sum id RStr (json_dumps env v)
      | PStr s \<Rightarrow> redis_encode env v
      | PInt i \<Rightarrow> redis_encode env v
      | PFloat f \<Rightarrow> redis_encode env v
      | PBool b \<Rightarrow> redis_encode env v
      | _ \<Rightarrow> map_sum id RStr (pickle_dumps env v))"

definition cache_set :: "env \<Rightarrow> string \<Rightarrow> pyval \<Rightarrow> int option \<Rightarrow> bool io" where
  "cache_set env key v ttl =
     (if \<not> enable_cache env then ret False
      else
        try_except
          (seq (lift (serialize env v)) (\<lambda>s.
           seq (redis_attr (case ttl of
                              None \<Rightarrow> redis_set key s
                            | Some t \<Rightarrow> if t \<noteq> 0 then redis_setex key t s
                                        else redis_set key s)) (\<lambda>_.
           ret True)))
          any_exception
          (ret False))"

definition cache_delete :: "env \<Rightarrow> string \<Rightarrow> bool io" where
  "cache_delete env key =
     (if \<not> enable_cache env then ret False
      else
        try_except
          (seq (redis_attr (redis_delete key)) (\<lambda>n. ret (n > 0)))
          any_exception
          (ret False))"

section \<open>Current-user resolution\<close>

definition unauthorized :: exn where
  \<comment> \<open>\<open>credentials_exception\<close>\<close>
  "unauthorized = HTTPException 401 ''Could not validate credentials''"

definition get_current_user ::
  "(string \<Rightarrow> exn + (string \<times> pyval) list) \<Rightarrow> string \<Rightarrow> user io" where
  "get_current_user jwt_decode credentials =
     seq (lift (decode_access_token jwt_decode credentials)) (\<lambda>token_data.
       case token_data of
         None \<Rightarrow> raise unauthorized
       | Some td \<Rightarrow>
           (case user_id td of
              None \<Rightarrow> raise unauthorized
            | Some uid \<Rightarrow>
                seq (db_select (\<lambda>u. id' u = uid \<and> deleted_at u = None)) (\<lambda>rs.
                seq (lift (scalar_one_or_none rs)) (\<lambda>found.
                  case found of
                    None \<Rightarrow> raise unauthorized
                  | Some u \<Rightarrow> ret u))))"

section \<open>RateLimitMiddleware\<close>

record request =
  path :: string
  client_host :: "string option"

text \<open>
  A response: its status, the headers set on it (names are case-insensitive and kept
  lower-cased) and its content.
\<close>

record response =
  status_code :: nat
  headers :: "string \<rightharpoonup> string"
  content :: pyval

definition set_header :: "string \<Rightarrow> string \<Rightarrow> response \<Rightarrow> response" where
  "set_header name v r = r\<lparr>headers := (headers r)(lower name \<mapsto> v)\<rparr>"

definition window_size :: int where
  "window_size = 60"

definition too_many_requests :: "int \<Rightarrow> int \<Rightarrow> int \<Rightarrow> response" where
  \<comment> \<open>the \<open>JSONResponse\<close> of the rejecting branch; \<open>now\<close> is \<open>int(time.time())\<close>\<close>
  "too_many_requests rpm now ttl =
     set_header ''Retry-After'' (str_int ttl)
      (set_header ''X-RateLimit-Limit'' (str_int rpm)
        (set_header ''X-RateLimit-Remaining'' ''0''
          (set_header ''X-RateLimit-Reset'' (str_int (now + ttl))
            \<lparr>status_code = 429, headers = Map.empty,
             content = PDict
               [(''error'', PStr ''Rate limit exceeded''),
                (''message'', PStr (''Too many requests. Please try again in ''
                                     @ str_int ttl @ '' seconds.'')),
                (''retry_after'', PInt ttl)]\<rparr>)))"

definition rate_limit_headers :: "int \<Rightarrow> int \<Rightarrow> int \<Rightarrow> int \<Rightarrow> response \<Rightarrow> response" where
  "rate_limit_headers rpm current_count now ttl r =
     (let remaining = max 0 (rpm - current_count) in
      set_header ''X-RateLimit-Reset'' (str_int (now + ttl))
        (set_header ''X-RateLimit-Remaining'' (str_int remaining)
          (set_header ''X-RateLimit-Limit'' (str_int rpm) r)))"

definition rate_limit_key :: "request \<Rightarrow> string" where
  "rate_limit_key req =
     ''rate_limit:'' @ (case client_host req of Some h \<Rightarrow> h | None \<Rightarrow> ''unknown'')"

definition dispatch :: "int \<Rightarrow> (request \<Rightarrow> response io) \<Rightarrow> request \<Rightarrow> response io" where
  "dispatch requests_per_minute call_next req =
     (if startswith (path req) ''/health'' then call_next req
      else
        try_except
          (seq get_client (\<lambda>_.
           seq (redis_incr (rate_limit_key req)) (\<lambda>current_count.
           seq (if current_count = 1
                then seq (redis_expire (rate_limit_key req) window_size) (\<lambda>_. ret ())
                else ret ()) (\<lambda>_.
           seq (redis_ttl (rate_limit_key req)) (\<lambda>ttl.
             if current_count > requests_per_minute
             then (\<lambda>w. ret (too_many_requests requests_per_minute (clock w) ttl) w)
             else
               seq (call_next req) (\<lambda>resp w.
                 ret (rate_limit_headers requests_per_minute current_count (clock w) ttl resp)
                   w))))))
          any_exception
          (call_next req))"

section \<open>UserService\<close>

text \<open>
  \<open>get_user_by_id\<close> returns \<open>None\<close>, the instance the session loaded from its row, or
  whatever the cache held under the key. The three are kept apart because only the
  second is tracked by the session.
\<close>

datatype lookup = NotFound | FromDb user | FromCache pyval

record user_update =
  upd_email :: "string option"
  upd_username :: "string option"
  upd_full_name :: "string option"
  upd_password :: "string option"
  upd_is_active :: "bool option"

definition cache_key :: "int \<Rightarrow> string" where
  "cache_key uid = ''user:'' @ str_int uid"

definition get_user_by_id :: "env \<Rightarrow> int \<Rightarrow> lookup io" where
  "get_user_by_id env uid =
     seq (cache_get env (cache_key uid) PNone) (\<lambda>cached_user.
       if truthy cached_user then ret (FromCache cached_user)
       else
         seq (db_select (\<lambda>u. id' u = uid \<and> deleted_at u = None)) (\<lambda>rs.
         seq (lift (scalar_one_or_none rs)) (\<lambda>found.
           case found of
             None \<Rightarrow> ret NotFound
           | Some u \<Rightarrow>
               seq (cache_set env (cache_key uid) (PUser u) (Some 300)) (\<lambda>_.
               ret (FromDb u)))))"

definition get_user_by_email :: "string \<Rightarrow> user option io" where
  "get_user_by_email e =
     seq (db_select (\<lambda>u. email u = lower e \<and> deleted_at u = None)) (\<lambda>rs.
     lift (scalar_one_or_none rs))"

definition get_user_by_username :: "string \<Rightarrow> user option io" where
  "get_user_by_username n =
     seq (db_select (\<lambda>u. username u = lower n \<and> deleted_at u = None)) (\<lambda>rs.
     lift (scalar_one_or_none rs))"

text \<open>
  The \<open>User\<close> instance behind a lookup, with whether the session tracks it. A cached
  value of another class has none of the attributes the service touches.
\<close>

fun as_user :: "lookup \<Rightarrow> (bool \<times> user) option" where
  "as_user (FromDb u) = Some (True, u)"
| "as_user (FromCache (PUser u)) = Some (False, u)"
| "as_user _ = None"

definition dirty :: "bool \<Rightarrow> user \<Rightarrow> user \<Rightarrow> user list" where
  \<comment> \<open>what the session has to flush for an instance loaded as \<open>u0\<close> and now \<open>u\<close>\<close>
  "dirty tracked u0 u = (if tracked \<and> u \<noteq> u0 then [u] else [])"

definition refresh :: "bool \<Rightarrow> user \<Rightarrow> user io" where
  "refresh tracked u = (if tracked then db_refresh u else raise InvalidRequestError)"

definition quoted :: "string \<Rightarrow> string" where
  "quoted s = [CHR 0x27] @ s @ [CHR 0x27]"

definition check_email :: "user_update \<Rightarrow> user \<Rightarrow> user io" where
  "check_email user_data u =
     (case upd_email user_data of
        None \<Rightarrow> ret u
      | Some e \<Rightarrow>
          if e \<noteq> [] \<and> e \<noteq> email u then
            seq (get_user_by_email e) (\<lambda>existing_user.
              case existing_user of
                Some x \<Rightarrow>
                  raise (ValueError (''Email '' @ quoted e @ '' is already registered''))
              | None \<Rightarrow>
                  seq (lift (validate_email e)) (\<lambda>e'. ret (u\<lparr>email := e'\<rparr>)))
          else ret u)"

definition check_username :: "user_update \<Rightarrow> user \<Rightarrow> user io" where
  "check_username user_data u =
     (case upd_username user_data of
        None \<Rightarrow> ret u
      | Some n \<Rightarrow>
          if n \<noteq> [] \<and> n \<noteq> username u then
            seq (get_user_by_username n) (\<lambda>existing_user.
              case existing_user of
                Some x \<Rightarrow>
                  raise (ValueError (''Username '' @ quoted n @ '' is already taken''))
              | None \<Rightarrow>
                  seq (lift (validate_username n)) (\<lambda>n'. ret (u\<lparr>username := n'\<rparr>)))
          else ret u)"

definition set_other_fields :: "env \<Rightarrow> user_update \<Rightarrow> user \<Rightarrow> user io" where
  "set_other_fields env user_data u =
     (let u1 = (case upd_full_name user_data of
                  Some n \<Rightarrow> u\<lparr>full_name := Some n\<rparr>
                | None \<Rightarrow> u)
      in seq (case upd_password user_data of
                None \<Rightarrow> ret u1
              | Some p \<Rightarrow>
                  if p \<noteq> [] then
                    seq (lift (pwd_hash env p)) (\<lambda>h. ret (u1\<lparr>hashed_password := h\<rparr>))
                  else ret u1) (\<lambda>u2.
         ret (case upd_is_active user_data of
                Some a \<Rightarrow> u2\<lparr>is_active := a\<rparr>
              | None \<Rightarrow> u2)))"

definition update_other_object :: "env \<Rightarrow> user_update \<Rightarrow> user option io" where
  \<comment> \<open>\<open>update_user\<close> on a cached value that is no \<open>User\<close>: the first attribute it
      touches raises; with an empty patch \<open>refresh\<close> rejects the value\<close>
  "update_other_object env user_data =
     (if (case upd_email user_data of Some e \<Rightarrow> e \<noteq> [] | None \<Rightarrow> False) then
        raise AttributeError
      else if (case upd_username user_data of Some n \<Rightarrow> n \<noteq> [] | None \<Rightarrow> False) then
        raise AttributeError
      else if upd_full_name user_data \<noteq> None then raise AttributeError
      else if (case upd_password user_data of Some p \<Rightarrow> p \<noteq> [] | None \<Rightarrow> False) then
        seq (lift (pwd_hash env (the (upd_password user_data)))) (\<lambda>h. raise AttributeError)
      else if upd_is_active user_data \<noteq> None then raise AttributeError
      else seq (db_commit []) (\<lambda>_. raise InvalidRequestError))"

definition update_user :: "env \<Rightarrow> int \<Rightarrow> user_update \<Rightarrow> user option io" where
  "update_user env uid user_data =
     seq (get_user_by_id env uid) (\<lambda>found.
       if found = NotFound then ret None
       else
         case as_user found of
           None \<Rightarrow> update_other_object env user_data
         | Some (tracked, u0) \<Rightarrow>
             seq (check_email user_data u0) (\<lambda>u1.
             seq (check_username user_data u1) (\<lambda>u2.
             seq (set_other_fields env user_data u2) (\<lambda>u3.
             seq (db_commit (dirty tracked u0 u3)) (\<lambda>_.
             seq (refresh tracked u3) (\<lambda>u4.
             seq (cache_delete env (cache_key uid)) (\<lambda>_.
             ret (Some u4))))))))"

definition delete_user :: "env \<Rightarrow> int \<Rightarrow> bool io" where
  "delete_user env uid =
     seq (get_user_by_id env uid) (\<lambda>found.
       if found = NotFound then ret False
       else
         case as_user found of
           None \<Rightarrow> raise AttributeError
         | Some (tracked, u0) \<Rightarrow> (\<lambda>w.
             (let u1 = (soft_delete (clock w) u0)\<lparr>is_active := False\<rparr> in
              seq (db_commit (dirty tracked u0 u1)) (\<lambda>_.
              seq (cache_delete env (cache_key uid)) (\<lambda>_.
              ret True))) w))"

definition verify_user_email :: "env \<Rightarrow> int \<Rightarrow> user option io" where
  "verify_user_email env uid =
     seq (get_user_by_id env uid) (\<lambda>found.
       if found = NotFound then ret None
       else
         case as_user found of
           None \<Rightarrow> raise AttributeError
         | Some (tracked, u0) \<Rightarrow> (\<lambda>w.
             (let u1 = verify_email (clock w) u0 in
              seq (db_commit (dirty tracked u0 u1)) (\<lambda>_.
              seq (refresh tracked u1) (\<lambda>u2.
              seq (cache_delete env (cache_key uid)) (\<lambda>_.
              ret (Some u2))))) w))"

section \<open>Notions used in the statements\<close>

definition db_answers :: "world \<Rightarrow> bool" where
  \<comment> \<open>the next call to the relational store does not raise\<close>
  "db_answers w = (case db_faults w of Some e # fs \<Rightarrow> False | _ \<Rightarrow> True)"

subsection \<open>Sample data\<close>

definition alice :: user where
  "alice = \<lparr>id' = 1, email = ''alice@example.com'', username = ''alice'',
            hashed_password = ''$2b$12$digest'', full_name = Some ''Alice'',
            is_active = True, is_verified = False, is_superuser = False,
            last_login_at = None, email_verified_at = None,
            created_at = 100, updated_at = 100, deleted_at = None\<rparr>"

definition quiet_world :: world where
  \<comment> \<open>one user, an empty and reachable key-value backend, no faults, time 1000\<close>
  "quiet_world = \<lparr>rows = [alice], db_faults = [], redis_connected = True,
                   kv = Map.empty, deadline = Map.empty, redis_faults = [],
                   clock = 1000, trace = []\<rparr>"

definition text_env :: env where
  \<comment> \<open>library behaviour on plain text that is neither JSON nor a pickle:
      \<open>json.loads\<close> raises \<open>JSONDecodeError\<close>, \<open>pickle.loads\<close> of a \<open>str\<close> raises
      \<open>TypeError\<close>\<close>
  "text_env = \<lparr>enable_cache = True,
                json_loads = (\<lambda>v. Inl JSONDecodeError),
                pickle_loads = (\<lambda>v. Inl TypeError),
                json_dumps = (\<lambda>v. Inl TypeError),
                pickle_dumps = (\<lambda>v. Inr ''pickled''),
                redis_encode = (\<lambda>v. case v of PStr s \<Rightarrow> Inr (RStr s)
                                       | PInt i \<Rightarrow> Inr (RInt i)
                                       | _ \<Rightarrow> Inl RedisError),
                pwd_hash = (\<lambda>p. Inr (''$2b$12$'' @ p))\<rparr>"

definition greeting_world :: world where
  \<comment> \<open>the key \<open>greeting\<close> holds the text \<open>hello\<close>\<close>
  "greeting_world = quiet_world\<lparr>kv := [''greeting'' \<mapsto> RStr ''hello'']\<rparr>"

definition sub_decoder :: "string \<Rightarrow> string \<Rightarrow> exn + (string \<times> pyval) list" where
  \<comment> \<open>a decoder that accepts every token and yields the subject \<open>sub\<close>\<close>
  "sub_decoder sub token = Inr [(''sub'', PStr sub)]"

definition ok_response :: response where
  "ok_response = \<lparr>status_code = 200, headers = Map.empty, content = PNone\<rparr>"

definition api_request :: request where
  "api_request = \<lparr>path = ''/api/v1/users'', client_host = Some ''10.0.0.1''\<rparr>"

definition ok_handler :: "request \<Rightarrow> response io" where
  \<comment> \<open>a handler that answers 200 and touches nothing\<close>
  "ok_handler req = ret ok_response"

subsection \<open>One client within one window\<close>

text \<open>
  \<open>serve\<close> runs the middleware on the requests one client sends at the given arrival
  times. \<open>fresh\<close>: the counter of the client is absent or has expired. \<open>well_behaved\<close>:
  the handler answers \<open>base\<close> and leaves the backend connection, the counter, its
  deadline and the clock as they are. \<open>expire_count\<close> counts the \<open>EXPIRE\<close> commands sent
  for a key.
\<close>

definition expire_count :: "string \<Rightarrow> (command \<times> bool) list \<Rightarrow> nat" where
  "expire_count key tr =
     length (filter (\<lambda>(c, ok). case c of EXPIRE k s \<Rightarrow> k = key | _ \<Rightarrow> False) tr)"






subsection \<open>Order of backend calls\<close>

text \<open>
  \<open>events m w\<close> are the backend calls that \<open>m\<close> makes when started in \<open>w\<close>, in order,
  each with whether it completed. \<open>ordered False t\<close>: every \<open>DEL\<close> in \<open>t\<close> comes after a
  \<open>COMMIT\<close>, and the latest \<open>COMMIT\<close> before it completed. \<open>no_delete t\<close>: no \<open>DEL\<close>
  was sent. The remaining notions serve the proofs: \<open>grows\<close> (an action only appends to
  the trace), \<open>only P\<close> (it sends only commands in \<open>P\<close>), \<open>harmless\<close> (neither \<open>DEL\<close> nor
  \<open>COMMIT\<close>).
\<close>

definition events :: "'a io \<Rightarrow> world \<Rightarrow> (command \<times> bool) list" where
  "events m w = drop (length (trace w)) (trace (snd (m w)))"

fun is_DEL :: "command \<Rightarrow> bool" where
  "is_DEL (DEL k) = True"
| "is_DEL _ = False"

fun ordered :: "bool \<Rightarrow> (command \<times> bool) list \<Rightarrow> bool" where
  "ordered c [] = True"
| "ordered c ((cmd, ok) # t) =
     (if is_DEL cmd then c \<and> ordered c t
      else if cmd = COMMIT then ordered ok t
      else ordered c t)"

definition no_delete :: "(command \<times> bool) list \<Rightarrow> bool" where
  "no_delete t = list_all (\<lambda>(cmd, ok). \<not> is_DEL cmd) t"

definition grows :: "'a io \<Rightarrow> bool" where
  "grows m = (\<forall>w. trace (snd (m w)) = trace w @ events m w)"

definition only :: "(command \<Rightarrow> bool) \<Rightarrow> 'a io \<Rightarrow> bool" where
  "only P m = (grows m \<and> (\<forall>w. list_all (\<lambda>(cmd, ok). P cmd) (events m w)))"

definition harmless :: "command \<Rightarrow> bool" where
  "harmless cmd = (\<not> is_DEL cmd \<and> cmd \<noteq> COMMIT)"

definition good :: "(command \<times> bool) list \<Rightarrow> bool" where
  "good t = (ordered False t \<and> ((COMMIT, False) \<in> set t \<longrightarrow> no_delete t))"

definition well_ordered :: "'a io \<Rightarrow> bool" where
  "well_ordered m = (grows m \<and> (\<forall>w. good (events m w)))"

definition failing_commit_world :: world where
  "failing_commit_world = quiet_world\<lparr>db_faults := [None, Some DBAPIError]\<rparr>"

definition rename_patch :: user_update where
  "rename_patch = \<lparr>upd_email = None, upd_username = None, upd_full_name = Some ''Alice B'',
                   upd_password = None, upd_is_active = None\<rparr>"

subsection \<open>Sample patch and a cache that holds a user\<close>

definition email_case_patch :: user_update where
  \<comment> \<open>alice's own address with a capital letter in the local part\<close>
  "email_case_patch = \<lparr>upd_email = Some ''Alice@example.com'', upd_username = None,
                        upd_full_name = None, upd_password = None, upd_is_active = None\<rparr>"




section \<open>Password hashing\<close>

text \<open>
  \<open>pwd_context.hash\<close> and \<open>pwd_context.verify\<close> belong to the hashing library; the
  first is \<open>pwd_hash\<close> of the environment, the second the parameter \<open>pwd_verify\<close>.
\<close>

definition get_password_hash :: "env \<Rightarrow> string \<Rightarrow> exn + string" where
  "get_password_hash env password = pwd_hash env password"

definition verify_password ::
  "(string \<Rightarrow> string \<Rightarrow> exn + bool) \<Rightarrow> string \<Rightarrow> string \<Rightarrow> exn + bool" where
  "verify_password pwd_verify plain_password hashed =
     (case pwd_verify plain_password hashed of
        Inr b \<Rightarrow> Inr b
      | Inl e \<Rightarrow> if any_exception e then Inr False else Inl e)"

section \<open>Properties\<close>

subsection \<open>Validators and token decoding\<close>


text \<open>
  C1. Token verification never raises. The \<open>except\<close> clause catches \<open>JWTError\<close> only:
  a token the library accepts whose subject is the string \<open>abc\<close> makes \<open>int\<close> raise
  \<open>ValueError\<close>, which leaves the function.
\<close>

theorem decode_access_token_raises_on_non_numeric_subject:
  "decode_access_token (\<lambda>t. Inr [(''sub'', PStr ''abc'')]) ''token''
     = Inl (ValueError ''invalid literal for int() with base 10'')"
  by code_simp

subsection \<open>Current-user resolution\<close>

lemma db_select_answers:
  "db_answers w \<Longrightarrow> fst (db_select P w) = Inr (filter P (rows w))"
  by (auto simp: db_answers_def db_select_def logged_def db_fault_def succeeded_def
      split: list.splits option.splits prod.splits)

lemma db_select_sound:
  "db_select P w = (Inr rs, w') \<Longrightarrow> rs = filter P (rows w)"
  by (auto simp: db_select_def logged_def db_fault_def
      split: list.splits option.splits prod.splits)

lemma decode_user_id:
  "decode_access_token jd tok = Inr (Some td) \<Longrightarrow> \<exists>uid. user_id td = Some uid"
  by (auto simp: decode_access_token_def Let_def split: sum.splits if_splits)

lemma get_current_user_no_principal:
  assumes "decode_access_token jd tok = Inr (Some td)"
      and "\<forall>u \<in> set (rows w). Some (id' u) = user_id td \<longrightarrow> deleted_at u \<noteq> None"
  shows "fst (get_current_user jd tok w) \<noteq> Inr u"
proof -
  obtain uid where uid: "user_id td = Some uid"
    using decode_user_id [OF assms(1)] by blast
  have emp: "filter (\<lambda>u. id' u = uid \<and> deleted_at u = None) (rows w) = []"
    using assms(2) uid by (auto simp: filter_empty_conv)
  obtain r w' where sel: "db_select (\<lambda>u. id' u = uid \<and> deleted_at u = None) w = (r, w')"
    by (cases "db_select (\<lambda>u. id' u = uid \<and> deleted_at u = None) w") simp
  show ?thesis
  proof (cases r)
    case (Inl e)
    then show ?thesis using assms(1) uid sel
      by (simp add: get_current_user_def seq_def lift_def)
  next
    case (Inr rs)
    then have "rs = []" using db_select_sound sel emp by metis
    then show ?thesis using assms(1) uid sel Inr
      by (simp add: get_current_user_def seq_def lift_def raise_def scalar_one_or_none_def)
  qed
qed

lemma get_current_user_401:
  assumes "decode_access_token jd tok = Inr (Some td)"
      and "\<forall>u \<in> set (rows w). Some (id' u) = user_id td \<longrightarrow> deleted_at u \<noteq> None"
      and "db_answers w"
  shows "fst (get_current_user jd tok w) = Inl unauthorized"
proof -
  obtain uid where uid: "user_id td = Some uid"
    using decode_user_id [OF assms(1)] by blast
  have "filter (\<lambda>u. id' u = uid \<and> deleted_at u = None) (rows w) = []"
    using assms(2) uid by (auto simp: filter_empty_conv)
  then have "fst (db_select (\<lambda>u. id' u = uid \<and> deleted_at u = None) w) = Inr []"
    using db_select_answers [OF assms(3)] by simp
  then obtain w' where
    sel: "db_select (\<lambda>u. id' u = uid \<and> deleted_at u = None) w = (Inr [], w')"
    by (cases "db_select (\<lambda>u. id' u = uid \<and> deleted_at u = None) w") simp
  show ?thesis
    using assms(1) uid
    by (simp add: get_current_user_def seq_def lift_def sel raise_def scalar_one_or_none_def)
qed

text \<open>
  C7. A token that verifies, whose subject id matches no row of the users table or only
  rows with a deletion timestamp, never resolves to a principal; when the store
  answers the lookup, the resolution raises the 401 \<open>credentials_exception\<close>.
\<close>

theorem get_current_user_unauthenticated:
  assumes "decode_access_token jwt_decode token = Inr (Some td)"
      and "\<forall>u \<in> set (rows w). Some (id' u) = user_id td \<longrightarrow> deleted_at u \<noteq> None"
  shows "(\<forall>u. fst (get_current_user jwt_decode token w) \<noteq> Inr u)
       \<and> (db_answers w \<longrightarrow> fst (get_current_user jwt_decode token w) = Inl unauthorized)"
  using get_current_user_no_principal [OF assms] get_current_user_401 [OF assms] by blast

theorem get_current_user_unauthenticated_witness:
  "fst (get_current_user (sub_decoder ''1'') ''token''
          (quiet_world\<lparr>rows := [alice\<lparr>deleted_at := Some 900\<rparr>]\<rparr>)) = Inl unauthorized
   \<and> fst (get_current_user (sub_decoder ''2'') ''token'' quiet_world) = Inl unauthorized"
proof -
  have d1: "decode_access_token (sub_decoder ''1'') ''token''
      = Inr (Some \<lparr>user_id = Some 1, td_username = None, td_email = None\<rparr>)"
    by code_simp
  have d2: "decode_access_token (sub_decoder ''2'') ''token''
      = Inr (Some \<lparr>user_id = Some 2, td_username = None, td_email = None\<rparr>)"
    by code_simp
  have r1: "\<forall>u \<in> set (rows (quiet_world\<lparr>rows := [alice\<lparr>deleted_at := Some 900\<rparr>]\<rparr>)).
      Some (id' u) = user_id \<lparr>user_id = Some 1, td_username = None, td_email = None\<rparr>
        \<longrightarrow> deleted_at u \<noteq> None"
    by simp
  have r2: "\<forall>u \<in> set (rows quiet_world).
      Some (id' u) = user_id \<lparr>user_id = Some 2, td_username = None, td_email = None\<rparr>
        \<longrightarrow> deleted_at u \<noteq> None"
    by (simp add: quiet_world_def alice_def)
  have a1: "db_answers (quiet_world\<lparr>rows := [alice\<lparr>deleted_at := Some 900\<rparr>]\<rparr>)"
    by (simp add: db_answers_def quiet_world_def)
  have a2: "db_answers quiet_world"
    by (simp add: db_answers_def quiet_world_def)
  show ?thesis
    using get_current_user_unauthenticated [OF d1 r1] get_current_user_unauthenticated [OF d2 r2]
      a1 a2 by blast
qed

subsection \<open>Failure policy of the rate limiter\<close>

text \<open>
  C6. When a call to the counter backend raises while a request is being counted (the
  client is not connected, \<open>INCR\<close> raises, \<open>EXPIRE\<close> raises on the first request of a
  window, or \<open>TTL\<close> raises), the middleware hands the request to the handler and
  returns what the handler returns.
\<close>

theorem dispatch_fails_open:
  assumes "\<not> startswith (path req) ''/health''"
  shows "(\<not> redis_connected w \<longrightarrow> dispatch rpm call_next req w = call_next req w) \<and>
         (redis_connected w \<and> fst (redis_incr (rate_limit_key req) w) = Inl e1 \<longrightarrow>
            dispatch rpm call_next req w
              = call_next req (snd (redis_incr (rate_limit_key req) w))) \<and>
         (redis_connected w \<and> redis_incr (rate_limit_key req) w = (Inr 1, w1)
            \<and> fst (redis_expire (rate_limit_key req) window_size w1) = Inl e2 \<longrightarrow>
            dispatch rpm call_next req w
              = call_next req (snd (redis_expire (rate_limit_key req) window_size w1))) \<and>
         (redis_connected w \<and> redis_incr (rate_limit_key req) w = (Inr c, w1)
            \<and> (if c = 1
                then \<exists>b. redis_expire (rate_limit_key req) window_size w1 = (Inr b, w2)
                else w2 = w1)
            \<and> fst (redis_ttl (rate_limit_key req) w2) = Inl e3 \<longrightarrow>
            dispatch rpm call_next req w
              = call_next req (snd (redis_ttl (rate_limit_key req) w2)))"
  using assms
  by (auto simp: dispatch_def try_except_def any_exception_def seq_def get_client_def ret_def
      split: prod.splits sum.splits if_splits)


theorem dispatch_fails_open_witness:
  "fst (dispatch 60 ok_handler api_request (quiet_world\<lparr>redis_connected := False\<rparr>))
     = Inr ok_response
   \<and> fst (dispatch 60 ok_handler api_request (quiet_world\<lparr>redis_faults := [Some RedisError]\<rparr>))
     = Inr ok_response
   \<and> fst (dispatch 60 ok_handler api_request
            (quiet_world\<lparr>redis_faults := [None, None, Some RedisError]\<rparr>))
     = Inr ok_response"
proof -
  have nh: "\<not> startswith (path api_request) ''/health''"
    by (simp add: api_request_def startswith_def)
  have down: "\<not> redis_connected (quiet_world\<lparr>redis_connected := False\<rparr>)"
    by simp
  have incr: "redis_connected (quiet_world\<lparr>redis_faults := [Some RedisError]\<rparr>)
      \<and> fst (redis_incr (rate_limit_key api_request)
                (quiet_world\<lparr>redis_faults := [Some RedisError]\<rparr>)) = Inl RedisError"
    by (simp add: quiet_world_def redis_incr_def logged_def redis_fault_def)
  define w where "w = quiet_world\<lparr>redis_faults := [None, None, Some RedisError]\<rparr>"
  define w1 where "w1 = snd (redis_incr (rate_limit_key api_request) w)"
  define w2 where "w2 = snd (redis_expire (rate_limit_key api_request) window_size w1)"
  have s1: "redis_incr (rate_limit_key api_request) w = (Inr 1, w1)"
    by (simp add: w1_def w_def quiet_world_def redis_incr_def logged_def redis_fault_def
        purge_def expired_def Let_def)
  have s2: "redis_expire (rate_limit_key api_request) window_size w1 = (Inr True, w2)"
    by (simp add: w2_def w1_def w_def quiet_world_def redis_incr_def redis_expire_def logged_def
        redis_fault_def purge_def expired_def Let_def window_size_def succeeded_def)
  have s3: "fst (redis_ttl (rate_limit_key api_request) w2) = Inl RedisError"
    by (simp add: w2_def w1_def w_def quiet_world_def redis_incr_def redis_expire_def
        redis_ttl_def logged_def redis_fault_def purge_def expired_def Let_def window_size_def
        succeeded_def)
  have ttl: "redis_connected w \<and> redis_incr (rate_limit_key api_request) w = (Inr 1, w1)
      \<and> (if (1::int) = 1
          then \<exists>b. redis_expire (rate_limit_key api_request) window_size w1 = (Inr b, w2)
          else w2 = w1)
      \<and> fst (redis_ttl (rate_limit_key api_request) w2) = Inl RedisError"
    using s1 s2 s3 by (auto simp: w_def quiet_world_def)
  show ?thesis
    using dispatch_fails_open [OF nh, where w = "quiet_world\<lparr>redis_connected := False\<rparr>"
        and rpm = 60 and call_next = ok_handler]
      dispatch_fails_open [OF nh, where w = "quiet_world\<lparr>redis_faults := [Some RedisError]\<rparr>"
        and ?e1.0 = RedisError and rpm = 60 and call_next = ok_handler]
      dispatch_fails_open [OF nh, where w = w and rpm = 60 and call_next = ok_handler
        and c = 1 and ?w1.0 = w1 and ?w2.0 = w2 and ?e3.0 = RedisError]
      down incr ttl
    by (simp add: ok_handler_def ret_def w_def)
qed

subsection \<open>Cache reads\<close>

text \<open>
  C3. \<open>CacheManager.get\<close> returns the miss default whenever deserialization of the stored
  value fails. It does not: when \<open>json.loads\<close> fails with \<open>JSONDecodeError\<close> or
  \<open>TypeError\<close> and \<open>pickle.loads\<close> fails with \<open>PickleError\<close> or \<open>TypeError\<close>, the
  raw stored value is returned. Here the key holds the text \<open>hello\<close>, both
  deserializers fail, and \<open>get\<close> returns \<open>hello\<close>, not the default \<open>None\<close>.
\<close>

theorem cache_get_returns_raw_value:
  "json_loads text_env (PStr ''hello'') = Inl JSONDecodeError
   \<and> pickle_loads text_env (PStr ''hello'') = Inl TypeError
   \<and> fst (cache_get text_env ''greeting'' PNone greeting_world) = Inr (PStr ''hello'')"
  by (simp add: text_env_def greeting_world_def quiet_world_def cache_get_def try_except_def
      seq_def redis_attr_def redis_get_def logged_def redis_fault_def purge_def expired_def
      present_def lift_def ret_def Let_def)

text \<open>
  C3, amended. \<open>CacheManager.get\<close> never raises. It returns the default when caching is
  disabled, when the backend call raises, when the key is absent, and when a
  deserializer raises an exception its \<open>except\<close> clause does not name. It returns the
  deserialized value when \<open>json.loads\<close> succeeds, or \<open>json.loads\<close> fails with
  \<open>JSONDecodeError\<close> or \<open>TypeError\<close> and \<open>pickle.loads\<close> succeeds. It returns the raw
  stored value when \<open>json.loads\<close> fails with \<open>JSONDecodeError\<close> or \<open>TypeError\<close> and
  \<open>pickle.loads\<close> fails with \<open>PickleError\<close> or \<open>TypeError\<close>.
\<close>

theorem cache_get_fail_open:
  "(\<exists>x. fst (cache_get env key d w) = Inr x) \<and>
   (\<not> enable_cache env \<longrightarrow> fst (cache_get env key d w) = Inr d) \<and>
   (fst (redis_attr (redis_get key) w) = Inl e \<longrightarrow> fst (cache_get env key d w) = Inr d) \<and>
   (fst (redis_attr (redis_get key) w) = Inr None \<longrightarrow> fst (cache_get env key d w) = Inr d) \<and>
   (enable_cache env \<and> fst (redis_attr (redis_get key) w) = Inr (Some v) \<longrightarrow>
      fst (cache_get env key d w) =
        (case json_loads env v of
           Inr x \<Rightarrow> Inr x
         | Inl e1 \<Rightarrow>
             if e1 = JSONDecodeError \<or> e1 = TypeError then
               (case pickle_loads env v of
                  Inr y \<Rightarrow> Inr y
                | Inl e2 \<Rightarrow> if is_PickleError e2 \<or> e2 = TypeError then Inr v else Inr d)
             else Inr d))"
  by (auto simp: cache_get_def try_except_def any_exception_def seq_def ret_def lift_def
      split: prod.splits sum.splits option.splits)

theorem cache_get_fail_open_witness:
  "fst (cache_get (text_env\<lparr>enable_cache := False\<rparr>) ''greeting'' PNone greeting_world)
     = Inr PNone
   \<and> fst (cache_get text_env ''greeting'' PNone
            (greeting_world\<lparr>redis_faults := [Some RedisError]\<rparr>)) = Inr PNone
   \<and> fst (cache_get text_env ''other'' PNone greeting_world) = Inr PNone
   \<and> fst (cache_get text_env ''greeting'' PNone greeting_world) = Inr (PStr ''hello'')"
proof -
  have off: "\<not> enable_cache (text_env\<lparr>enable_cache := False\<rparr>)"
    by simp
  have err: "fst (redis_attr (redis_get ''greeting'')
                (greeting_world\<lparr>redis_faults := [Some RedisError]\<rparr>)) = Inl RedisError"
    by (simp add: greeting_world_def quiet_world_def redis_attr_def redis_get_def logged_def
        redis_fault_def)
  have miss: "fst (redis_attr (redis_get ''other'') greeting_world) = Inr None"
    by (simp add: greeting_world_def quiet_world_def redis_attr_def redis_get_def logged_def
        redis_fault_def purge_def expired_def Let_def)
  have hit: "enable_cache text_env
      \<and> fst (redis_attr (redis_get ''greeting'') greeting_world) = Inr (Some (PStr ''hello''))"
    by (simp add: text_env_def greeting_world_def quiet_world_def redis_attr_def redis_get_def
        logged_def redis_fault_def purge_def expired_def present_def Let_def)
  show ?thesis
    using cache_get_fail_open [where env = "text_env\<lparr>enable_cache := False\<rparr>"
        and key = "''greeting''" and d = PNone and w = greeting_world]
      cache_get_fail_open [where env = text_env and key = "''greeting''" and d = PNone
        and w = "greeting_world\<lparr>redis_faults := [Some RedisError]\<rparr>" and e = RedisError]
      cache_get_fail_open [where env = text_env and key = "''other''" and d = PNone
        and w = greeting_world]
      cache_get_fail_open [where env = text_env and key = "''greeting''" and d = PNone
        and w = greeting_world and v = "PStr ''hello''"]
      off err miss hit
    by (simp add: text_env_def)
qed


subsection \<open>The rate limiter within one window\<close>

lemma expire_count_append [simp]:
  "expire_count key (a @ b) = expire_count key a + expire_count key b"
  by (simp add: expire_count_def)



















subsection \<open>Commit before cache invalidation\<close>

lemma growsI: "(\<And>w. \<exists>t. trace (snd (m w)) = trace w @ t) \<Longrightarrow> grows m"
  unfolding grows_def events_def by (metis append_eq_conv_conj)

lemma events_eq: "trace (snd (m w)) = trace w @ t \<Longrightarrow> events m w = t"
  by (simp add: events_def)

lemma onlyI:
  "(\<And>w. \<exists>t. trace (snd (m w)) = trace w @ t \<and> list_all (\<lambda>(cmd, ok). P cmd) t) \<Longrightarrow> only P m"
  unfolding only_def
  by (metis growsI events_eq)

lemma onlyD:
  "only P m \<Longrightarrow> trace (snd (m w)) = trace w @ events m w \<and> list_all (\<lambda>(cmd, ok). P cmd) (events m w)"
  by (simp add: only_def grows_def)

lemma only_ret: "only P (ret x)"
  by (rule onlyI) (simp add: ret_def)

lemma only_raise: "only P (raise e)"
  by (rule onlyI) (simp add: raise_def)

lemma only_lift: "only P (lift r)"
  by (rule onlyI) (simp add: lift_def)

lemma only_seq:
  assumes "only P m" "\<And>x. only P (f x)"
  shows "only P (seq m f)"
proof (rule onlyI)
  fix w
  obtain r w' where m: "m w = (r, w')" by (cases "m w")
  have 1: "trace w' = trace w @ events m w" "list_all (\<lambda>(cmd, ok). P cmd) (events m w)"
    using onlyD [OF assms(1), of w] m by simp_all
  show "\<exists>t. trace (snd (seq m f w)) = trace w @ t \<and> list_all (\<lambda>(cmd, ok). P cmd) t"
  proof (cases r)
    case (Inl e)
    then show ?thesis using m 1 by (auto simp: seq_def)
  next
    case (Inr x)
    have "trace (snd (f x w')) = trace w' @ events (f x) w'"
      "list_all (\<lambda>(cmd, ok). P cmd) (events (f x) w')"
      using onlyD [OF assms(2), of x w'] by simp_all
    then show ?thesis using m 1 Inr
      by (intro exI [of _ "events m w @ events (f x) w'"]) (simp add: seq_def)
  qed
qed

lemma only_try:
  assumes "only P m" "only P h"
  shows "only P (try_except m c h)"
proof (rule onlyI)
  fix w
  obtain r w' where m: "m w = (r, w')" by (cases "m w")
  have 1: "trace w' = trace w @ events m w" "list_all (\<lambda>(cmd, ok). P cmd) (events m w)"
    using onlyD [OF assms(1), of w] m by simp_all
  have 2: "trace (snd (h w')) = trace w' @ events h w'"
      "list_all (\<lambda>(cmd, ok). P cmd) (events h w')"
    using onlyD [OF assms(2), of w'] by simp_all
  show "\<exists>t. trace (snd (try_except m c h w)) = trace w @ t \<and> list_all (\<lambda>(cmd, ok). P cmd) t"
  proof (cases r)
    case (Inl e)
    show ?thesis
    proof (cases "c e")
      case True
      then show ?thesis using m 1 2 Inl
        by (intro exI [of _ "events m w @ events h w'"]) (simp add: try_except_def)
    next
      case False
      then show ?thesis using m 1 Inl by (auto simp: try_except_def)
    qed
  next
    case (Inr x)
    then show ?thesis using m 1 by (auto simp: try_except_def)
  qed
qed

lemma only_redis_attr: "only P m \<Longrightarrow> only P (redis_attr m)"
  unfolding redis_attr_def
  by (rule onlyI) (auto dest: onlyD)

lemma trace_purge [simp]: "trace (purge k w) = trace w"
  by (simp add: purge_def)

lemma only_redis_get: "P (GET k) \<Longrightarrow> only P (redis_get k)"
  by (rule onlyI)
    (auto simp: redis_get_def logged_def redis_fault_def Let_def split: list.splits option.splits)

lemma only_redis_set: "P (SET k) \<Longrightarrow> only P (redis_set k v)"
  by (rule onlyI)
    (auto simp: redis_set_def logged_def redis_fault_def Let_def split: list.splits option.splits)

lemma only_redis_setex: "P (SETEX k s) \<Longrightarrow> only P (redis_setex k s v)"
  by (rule onlyI)
    (auto simp: redis_setex_def logged_def redis_fault_def Let_def split: list.splits option.splits)

lemma only_redis_delete: "P (DEL k) \<Longrightarrow> only P (redis_delete k)"
  by (rule onlyI)
    (auto simp: redis_delete_def logged_def redis_fault_def Let_def split: list.splits option.splits)

lemma only_db_select: "P SELECT \<Longrightarrow> only P (db_select Q)"
  by (rule onlyI)
    (auto simp: db_select_def logged_def db_fault_def Let_def split: list.splits option.splits)

lemma only_db_refresh: "P REFRESH \<Longrightarrow> only P (db_refresh u)"
  by (rule onlyI)
    (auto simp: db_refresh_def logged_def db_fault_def Let_def split: list.splits option.splits)

lemma only_db_commit: "P COMMIT \<Longrightarrow> only P (db_commit d)"
  by (rule onlyI)
    (auto simp: db_commit_def logged_def db_fault_def Let_def split: list.splits option.splits)

lemma only_mono:
  assumes "only P m" "\<And>c. P c \<Longrightarrow> Q c"
  shows "only Q m"
proof (rule onlyI)
  fix w
  have "list_all (\<lambda>(cmd, ok). P cmd) (events m w)"
    using onlyD [OF assms(1)] by simp
  then have "list_all (\<lambda>(cmd, ok). Q cmd) (events m w)"
    using assms(2) by (auto simp: list_all_iff)
  then show "\<exists>t. trace (snd (m w)) = trace w @ t \<and> list_all (\<lambda>(cmd, ok). Q cmd) t"
    using onlyD [OF assms(1), of w] by blast
qed

lemma only_cache_get: "P (GET k) \<Longrightarrow> only P (cache_get env k d)"
  unfolding cache_get_def
  by (auto intro!: only_ret only_try only_seq only_redis_attr only_redis_get only_lift
      split: option.splits)

lemma only_cache_set: "(\<And>s. P (SETEX k s)) \<Longrightarrow> P (SET k) \<Longrightarrow> only P (cache_set env k v ttl)"
  unfolding cache_set_def
  by (auto intro!: only_ret only_try only_seq only_redis_attr only_redis_set only_redis_setex
      only_lift split: option.splits)

lemma only_cache_delete: "P (DEL k) \<Longrightarrow> only P (cache_delete env k)"
  unfolding cache_delete_def
  by (auto intro!: only_ret only_try only_seq only_redis_attr only_redis_delete)

lemma harmless_simps [simp]:
  "harmless (GET k)" "harmless (SET k)" "harmless (SETEX k s)" "harmless SELECT"
  "harmless REFRESH" "\<not> harmless COMMIT" "\<not> harmless (DEL k)"
  by (simp_all add: harmless_def)

lemma only_get_user_by_id: "only harmless (get_user_by_id env uid)"
  unfolding get_user_by_id_def
  by (auto intro!: only_ret only_seq only_cache_get only_cache_set only_db_select only_lift
      split: option.splits)

lemma only_get_user_by_email: "only harmless (get_user_by_email e)"
  unfolding get_user_by_email_def
  by (auto intro!: only_seq only_db_select only_lift)

lemma only_get_user_by_username: "only harmless (get_user_by_username e)"
  unfolding get_user_by_username_def
  by (auto intro!: only_seq only_db_select only_lift)

lemma only_check_email: "only harmless (check_email p u)"
  unfolding check_email_def
  by (auto intro!: only_ret only_raise only_seq only_get_user_by_email only_lift
      split: option.splits)

lemma only_check_username: "only harmless (check_username p u)"
  unfolding check_username_def
  by (auto intro!: only_ret only_raise only_seq only_get_user_by_username only_lift
      split: option.splits)

lemma only_set_other_fields: "only harmless (set_other_fields env p u)"
  unfolding set_other_fields_def Let_def
  by (auto intro!: only_ret only_raise only_seq only_lift split: option.splits)

lemma only_refresh: "only harmless (refresh tracked u)"
  unfolding refresh_def
  by (auto intro!: only_raise only_db_refresh)

lemma ordered_after_commit:
  "list_all (\<lambda>(cmd, ok). cmd \<noteq> COMMIT) t \<Longrightarrow> ordered True t"
  by (induction t) auto

lemma good_harmless:
  "list_all (\<lambda>(cmd, ok). harmless cmd) q \<Longrightarrow> good t \<Longrightarrow> good (q @ t)"
proof (induction q)
  case Nil
  then show ?case by simp
next
  case (Cons a q)
  then show ?case
    by (cases a) (auto simp: good_def harmless_def no_delete_def)
qed

lemma good_Nil [simp]: "good []"
  by (simp add: good_def no_delete_def)

lemma well_orderedI:
  "(\<And>w. \<exists>t. trace (snd (m w)) = trace w @ t \<and> good t) \<Longrightarrow> well_ordered m"
  unfolding well_ordered_def by (metis growsI events_eq)

lemma well_orderedD:
  "well_ordered m \<Longrightarrow> trace (snd (m w)) = trace w @ events m w \<and> good (events m w)"
  by (simp add: well_ordered_def grows_def)

lemma wo_only: "only harmless m \<Longrightarrow> well_ordered m"
proof (rule well_orderedI)
  fix w assume "only harmless m"
  from onlyD [OF this, of w] good_harmless [of "events m w" "[]"]
  show "\<exists>t. trace (snd (m w)) = trace w @ t \<and> good t" by auto
qed

lemma wo_seq:
  assumes "only harmless m" "\<And>x. well_ordered (f x)"
  shows "well_ordered (seq m f)"
proof (rule well_orderedI)
  fix w
  obtain r w' where m: "m w = (r, w')" by (cases "m w")
  have 1: "trace w' = trace w @ events m w" "list_all (\<lambda>(cmd, ok). harmless cmd) (events m w)"
    using onlyD [OF assms(1), of w] m by simp_all
  show "\<exists>t. trace (snd (seq m f w)) = trace w @ t \<and> good t"
  proof (cases r)
    case (Inl e)
    then show ?thesis using m 1 good_harmless [OF 1(2) good_Nil]
      by (intro exI [of _ "events m w"]) (simp add: seq_def)
  next
    case (Inr x)
    have "trace (snd (f x w')) = trace w' @ events (f x) w'" "good (events (f x) w')"
      using well_orderedD [OF assms(2), of x w'] by simp_all
    then show ?thesis using m 1 Inr good_harmless [OF 1(2)]
      by (intro exI [of _ "events m w @ events (f x) w'"]) (simp add: seq_def)
  qed
qed

lemma wo_pointwise:
  assumes "\<And>w. \<exists>m'. well_ordered m' \<and> m w = m' w"
  shows "well_ordered m"
proof (rule well_orderedI)
  fix w
  obtain m' where "well_ordered m'" "m w = m' w" using assms by blast
  then show "\<exists>t. trace (snd (m w)) = trace w @ t \<and> good t"
    using well_orderedD [of m' w] by auto
qed

lemma db_commit_events:
  "trace (snd (db_commit d w)) = trace w @ [(COMMIT, succeeded (fst (db_commit d w)))]"
  by (auto simp: db_commit_def logged_def db_fault_def Let_def succeeded_def
      split: list.splits option.splits)

lemma wo_commit:
  assumes "only (\<lambda>c. c \<noteq> COMMIT) rest"
  shows "well_ordered (seq (db_commit d) (\<lambda>_. rest))"
proof (rule well_orderedI)
  fix w
  obtain r w' where m: "db_commit d w = (r, w')" by (cases "db_commit d w")
  have 1: "trace w' = trace w @ [(COMMIT, succeeded r)]"
    using db_commit_events [of d w] m by simp
  show "\<exists>t. trace (snd (seq (db_commit d) (\<lambda>_. rest) w)) = trace w @ t \<and> good t"
  proof (cases r)
    case (Inl e)
    then show ?thesis using m 1
      by (intro exI [of _ "[(COMMIT, False)]"])
        (simp add: seq_def succeeded_def good_def no_delete_def)
  next
    case (Inr x)
    have 2: "trace (snd (rest w')) = trace w' @ events rest w'"
      "list_all (\<lambda>(cmd, ok). cmd \<noteq> COMMIT) (events rest w')"
      using onlyD [OF assms, of w'] by simp_all
    then have "(COMMIT, False) \<notin> set (events rest w')"
      by (auto simp: list_all_iff)
    then have "good ((COMMIT, True) # events rest w')"
      using ordered_after_commit [OF 2(2)] by (simp add: good_def)
    then show ?thesis using m 1 2 Inr
      by (intro exI [of _ "(COMMIT, True) # events rest w'"]) (simp add: seq_def succeeded_def)
  qed
qed

lemma not_commit_simps [simp]: "DEL k \<noteq> COMMIT" "REFRESH \<noteq> COMMIT"
  by simp_all

lemma only_refresh_no_commit: "only (\<lambda>c. c \<noteq> COMMIT) (refresh tracked u)"
  by (rule only_mono [OF only_refresh]) (auto simp: harmless_def)

lemma wo_commit_raise: "well_ordered (seq (db_commit d) (\<lambda>_. raise e))"
  by (rule wo_commit) (rule only_raise)

lemma wo_hash_raise: "well_ordered (seq (lift r) (\<lambda>h. raise e))"
  by (rule wo_only) (intro only_seq only_lift only_raise)

lemma wo_update_other_object: "well_ordered (update_other_object env p)"
  unfolding update_other_object_def
  by (simp add: wo_commit_raise wo_hash_raise wo_only only_raise)

lemma wo_update_tail:
  "well_ordered (seq (db_commit d) (\<lambda>_.
     seq (refresh tracked u) (\<lambda>u4. seq (cache_delete env k) (\<lambda>_. ret (Some u4)))))"
  by (rule wo_commit) (intro only_seq only_refresh_no_commit only_cache_delete only_ret, simp)

lemma wo_delete_tail:
  "well_ordered (seq (db_commit d) (\<lambda>_. seq (cache_delete env k) (\<lambda>_. ret True)))"
  by (rule wo_commit) (intro only_seq only_cache_delete only_ret, simp)

lemma wo_update_body:
  "well_ordered
     (seq (check_email p u0) (\<lambda>u1.
      seq (check_username p u1) (\<lambda>u2.
      seq (set_other_fields env p u2) (\<lambda>u3.
      seq (db_commit (dirty tracked u0 u3)) (\<lambda>_.
      seq (refresh tracked u3) (\<lambda>u4.
      seq (cache_delete env k) (\<lambda>_.
      ret (Some u4))))))))"
  apply (rule wo_seq [OF only_check_email])
  apply (rule wo_seq [OF only_check_username])
  apply (rule wo_seq [OF only_set_other_fields])
  apply (rule wo_update_tail)
  done

lemma wo_update_user: "well_ordered (update_user env uid p)"
  unfolding update_user_def
proof (rule wo_seq [OF only_get_user_by_id])
  fix found
  show "well_ordered
     (if found = NotFound then ret None
      else case as_user found of
             None \<Rightarrow> update_other_object env p
           | Some (tracked, u0) \<Rightarrow>
               seq (check_email p u0) (\<lambda>u1.
               seq (check_username p u1) (\<lambda>u2.
               seq (set_other_fields env p u2) (\<lambda>u3.
               seq (db_commit (dirty tracked u0 u3)) (\<lambda>_.
               seq (refresh tracked u3) (\<lambda>u4.
               seq (cache_delete env (cache_key uid)) (\<lambda>_.
               ret (Some u4))))))))"
    by (cases "as_user found")
      (auto simp: wo_only only_ret wo_update_other_object wo_update_body)
qed

lemma wo_delete_body:
  "well_ordered (\<lambda>w.
     (let u1 = (soft_delete (clock w) u0)\<lparr>is_active := False\<rparr> in
      seq (db_commit (dirty tracked u0 u1)) (\<lambda>_.
      seq (cache_delete env k) (\<lambda>_.
      ret True))) w)"
proof (rule wo_pointwise)
  fix w
  show "\<exists>m'. well_ordered m' \<and>
      (let u1 = (soft_delete (clock w) u0)\<lparr>is_active := False\<rparr> in
       seq (db_commit (dirty tracked u0 u1)) (\<lambda>_.
       seq (cache_delete env k) (\<lambda>_.
       ret True))) w = m' w"
    by (rule exI [of _ "seq (db_commit (dirty tracked u0
          ((soft_delete (clock w) u0)\<lparr>is_active := False\<rparr>))) (\<lambda>_.
        seq (cache_delete env k) (\<lambda>_. ret True))"])
      (simp add: wo_delete_tail Let_def)
qed

lemma wo_delete_user: "well_ordered (delete_user env uid)"
  unfolding delete_user_def
proof (rule wo_seq [OF only_get_user_by_id])
  fix found
  show "well_ordered
     (if found = NotFound then ret False
      else case as_user found of
             None \<Rightarrow> raise AttributeError
           | Some (tracked, u0) \<Rightarrow> (\<lambda>w.
               (let u1 = (soft_delete (clock w) u0)\<lparr>is_active := False\<rparr> in
                seq (db_commit (dirty tracked u0 u1)) (\<lambda>_.
                seq (cache_delete env (cache_key uid)) (\<lambda>_.
                ret True))) w))"
    by (cases "as_user found")
      (auto simp: wo_only only_ret only_raise wo_delete_body wo_delete_body [unfolded Let_def])
qed

lemma wo_verify_body:
  "well_ordered (\<lambda>w.
     (let u1 = verify_email (clock w) u0 in
      seq (db_commit (dirty tracked u0 u1)) (\<lambda>_.
      seq (refresh tracked u1) (\<lambda>u2.
      seq (cache_delete env k) (\<lambda>_.
      ret (Some u2))))) w)"
proof (rule wo_pointwise)
  fix w
  show "\<exists>m'. well_ordered m' \<and>
      (let u1 = verify_email (clock w) u0 in
       seq (db_commit (dirty tracked u0 u1)) (\<lambda>_.
       seq (refresh tracked u1) (\<lambda>u2.
       seq (cache_delete env k) (\<lambda>_.
       ret (Some u2))))) w = m' w"
    by (rule exI [of _ "seq (db_commit (dirty tracked u0 (verify_email (clock w) u0))) (\<lambda>_.
        seq (refresh tracked (verify_email (clock w) u0)) (\<lambda>u2.
        seq (cache_delete env k) (\<lambda>_. ret (Some u2))))"])
      (simp add: wo_update_tail Let_def)
qed

lemma wo_verify_user_email: "well_ordered (verify_user_email env uid)"
  unfolding verify_user_email_def
proof (rule wo_seq [OF only_get_user_by_id])
  fix found
  show "well_ordered
     (if found = NotFound then ret None
      else case as_user found of
             None \<Rightarrow> raise AttributeError
           | Some (tracked, u0) \<Rightarrow> (\<lambda>w.
               (let u1 = verify_email (clock w) u0 in
                seq (db_commit (dirty tracked u0 u1)) (\<lambda>_.
                seq (refresh tracked u1) (\<lambda>u2.
                seq (cache_delete env (cache_key uid)) (\<lambda>_.
                ret (Some u2))))) w))"
    by (cases "as_user found")
      (auto simp: wo_only only_ret only_raise wo_verify_body wo_verify_body [unfolded Let_def])
qed

text \<open>
  C2. In \<open>update_user\<close>, \<open>delete_user\<close> and \<open>verify_user_email\<close>, whatever the backends
  do, a \<open>DEL\<close> of the cache entry is sent only after the \<open>COMMIT\<close> of the operation has
  completed; when the \<open>COMMIT\<close> fails, no \<open>DEL\<close> is sent at all.
\<close>

theorem cache_delete_only_after_commit:
  "ordered False (events (update_user env uid user_data) w)
   \<and> ((COMMIT, False) \<in> set (events (update_user env uid user_data) w)
        \<longrightarrow> no_delete (events (update_user env uid user_data) w))
   \<and> ordered False (events (delete_user env uid) w)
   \<and> ((COMMIT, False) \<in> set (events (delete_user env uid) w)
        \<longrightarrow> no_delete (events (delete_user env uid) w))
   \<and> ordered False (events (verify_user_email env uid) w)
   \<and> ((COMMIT, False) \<in> set (events (verify_user_email env uid) w)
        \<longrightarrow> no_delete (events (verify_user_email env uid) w))"
  using wo_update_user [of env uid user_data] wo_delete_user [of env uid]
    wo_verify_user_email [of env uid]
  by (simp add: well_ordered_def good_def)

theorem cache_delete_only_after_commit_witness:
  "(COMMIT, False) \<in> set (events (delete_user text_env 1) failing_commit_world)
   \<and> no_delete (events (delete_user text_env 1) failing_commit_world)
   \<and> (COMMIT, False) \<in> set (events (update_user text_env 1 rename_patch) failing_commit_world)
   \<and> no_delete (events (update_user text_env 1 rename_patch) failing_commit_world)
   \<and> (COMMIT, False) \<in> set (events (verify_user_email text_env 1) failing_commit_world)
   \<and> no_delete (events (verify_user_email text_env 1) failing_commit_world)
   \<and> events (delete_user text_env 1) quiet_world
       = [(GET ''user:1'', True), (SELECT, True), (SETEX ''user:1'' 300, True),
          (COMMIT, True), (DEL ''user:1'', True)]
   \<and> ordered False (events (delete_user text_env 1) quiet_world)"
proof -
  have d: "(COMMIT, False) \<in> set (events (delete_user text_env 1) failing_commit_world)"
    by code_simp
  have u: "(COMMIT, False) \<in> set (events (update_user text_env 1 rename_patch) failing_commit_world)"
    by code_simp
  have v: "(COMMIT, False) \<in> set (events (verify_user_email text_env 1) failing_commit_world)"
    by code_simp
  have e: "events (delete_user text_env 1) quiet_world
       = [(GET ''user:1'', True), (SELECT, True), (SETEX ''user:1'' 300, True),
          (COMMIT, True), (DEL ''user:1'', True)]"
    by code_simp
  show ?thesis
    using cache_delete_only_after_commit [of text_env 1 rename_patch failing_commit_world]
      cache_delete_only_after_commit [of text_env 1 rename_patch quiet_world]
      d u v e
    by simp
qed

subsection \<open>Uniqueness check on update\<close>

text \<open>
  C4. Patching a user with an address that normalizes to their own current one raises
  no duplicate error. The guard compares the patch with the stored address as
  written, the lookup compares lower-cased: alice, the only user, patched with her
  own address spelled \<open>Alice@example.com\<close>, is refused as already registered.
\<close>

theorem update_user_rejects_own_email:
  "rows quiet_world = [alice]
   \<and> validate_email ''Alice@example.com'' = Inr (email alice)
   \<and> fst (update_user text_env 1 email_case_patch quiet_world)
       = Inl (ValueError (''Email '' @ quoted ''Alice@example.com'' @ '' is already registered''))"
  by code_simp

subsection \<open>Soft deletion twice\<close>


subsection \<open>Soft deletion through the store\<close>

lemma rows_purge [simp]: "rows (purge k w) = rows w"
  by (simp add: purge_def)

lemma rows_cache_get [simp]: "rows (snd (cache_get env k d w)) = rows w"
  by (auto simp: cache_get_def try_except_def seq_def ret_def lift_def redis_attr_def
      redis_get_def logged_def redis_fault_def Let_def
      split: prod.splits sum.splits option.splits list.splits if_splits)

lemma rows_cache_set [simp]: "rows (snd (cache_set env k v ttl w)) = rows w"
  by (auto simp: cache_set_def try_except_def seq_def ret_def lift_def redis_attr_def
      redis_set_def redis_setex_def logged_def redis_fault_def Let_def
      split: prod.splits sum.splits option.splits list.splits if_splits)

lemma rows_cache_delete [simp]: "rows (snd (cache_delete env k w)) = rows w"
  by (auto simp: cache_delete_def try_except_def seq_def ret_def redis_attr_def
      redis_delete_def logged_def redis_fault_def Let_def
      split: prod.splits sum.splits option.splits list.splits if_splits)

lemma cache_delete_total: "\<exists>b. fst (cache_delete env k w) = Inr b"
  by (auto simp: cache_delete_def try_except_def any_exception_def seq_def ret_def
      split: prod.splits sum.splits)

lemma cache_get_total: "\<exists>v. fst (cache_get env k d w) = Inr v"
  by (auto simp: cache_get_def try_except_def any_exception_def seq_def ret_def lift_def
      split: prod.splits sum.splits option.splits)

lemma cache_set_total: "\<exists>b. fst (cache_set env k v ttl w) = Inr b"
  by (auto simp: cache_set_def try_except_def any_exception_def seq_def ret_def lift_def
      split: prod.splits sum.splits option.splits)

lemma rows_db_select [simp]: "rows (snd (db_select P w)) = rows w"
  by (auto simp: db_select_def logged_def db_fault_def split: list.splits option.splits)

lemma get_user_by_id_FromDb:
  assumes "get_user_by_id env uid w = (Inr (FromDb u), w')"
  shows "id' u = uid \<and> deleted_at u = None \<and> rows w' = rows w"
proof -
  obtain v wa where g: "cache_get env (cache_key uid) PNone w = (Inr v, wa)"
    using cache_get_total [of env "cache_key uid" PNone w]
    by (cases "cache_get env (cache_key uid) PNone w") auto
  have ra: "rows wa = rows w" using rows_cache_get [of env "cache_key uid" PNone w] g by simp
  have nt: "\<not> truthy v" using assms g by (auto simp: get_user_by_id_def seq_def ret_def)
  obtain r wb where s: "db_select (\<lambda>u. id' u = uid \<and> deleted_at u = None) wa = (r, wb)"
    by (cases "db_select (\<lambda>u. id' u = uid \<and> deleted_at u = None) wa") simp
  have rb: "rows wb = rows wa" using rows_db_select [of _ wa] s by (metis snd_conv)
  from assms g nt s obtain rs where r: "r = Inr rs"
    by (cases r) (auto simp: get_user_by_id_def seq_def ret_def)
  have rs: "rs = filter (\<lambda>u. id' u = uid \<and> deleted_at u = None) (rows wa)"
    using db_select_sound s r by blast
  from assms g nt s r have one: "rs = [u]"
    "w' = snd (cache_set env (cache_key uid) (PUser u) (Some 300) wb)"
    by (auto simp: get_user_by_id_def seq_def ret_def lift_def scalar_one_or_none_def
        split: list.splits sum.splits prod.splits)
  have "u \<in> set rs" using one by simp
  then have "id' u = uid \<and> deleted_at u = None" using rs by auto
  then show ?thesis using one ra rb by simp
qed

lemma db_commit_rows:
  assumes "db_commit [u] w = (Inr x, w')"
  shows "rows w' = write_rows (clock w) [u] (rows w)"
  using assms
  by (auto simp: db_commit_def logged_def db_fault_def Let_def
      split: list.splits option.splits if_splits)

lemma write_rows_deleted:
  assumes "deleted_at u \<noteq> None" "r \<in> set (write_rows now [u] rs)" "id' r = id' u"
  shows "deleted_at r \<noteq> None"
  using assms by (auto simp: write_rows_def)

text \<open>
  When the first call loads the user from the store, the deletion is written: a second
  call whose cache lookup misses, and whose query the store answers, returns false.
\<close>

lemma delete_user_from_store_not_repeatable:
  assumes first: "delete_user env uid w = (Inr True, w1)"
      and store: "fst (get_user_by_id env uid w) = Inr (FromDb u)"
      and miss: "\<not> truthy (case fst (cache_get env (cache_key uid) PNone w1) of
                              Inr v \<Rightarrow> v | Inl e \<Rightarrow> PNone)"
      and answers: "db_answers (snd (cache_get env (cache_key uid) PNone w1))"
  shows "fst (delete_user env uid w1) = Inr False"
proof -
  obtain wa where g: "get_user_by_id env uid w = (Inr (FromDb u), wa)"
    using store by (cases "get_user_by_id env uid w") simp
  have u: "id' u = uid" "deleted_at u = None" "rows wa = rows w"
    using get_user_by_id_FromDb [OF g] by simp_all
  define u1 where "u1 = (soft_delete (clock wa) u)\<lparr>is_active := False\<rparr>"
  have ne: "u1 \<noteq> u"
  proof
    assume "u1 = u"
    then have "deleted_at u1 = deleted_at u" by simp
    then show False using u(2) by (simp add: u1_def soft_delete_def)
  qed
  have d1: "deleted_at u1 \<noteq> None" "id' u1 = uid"
    using u(1) by (simp_all add: u1_def soft_delete_def)
  obtain r wb where c: "db_commit [u1] wa = (r, wb)"
    by (cases "db_commit [u1] wa") simp
  from first g c ne obtain x where r: "r = Inr x"
    by (cases r) (auto simp: delete_user_def seq_def ret_def dirty_def u1_def Let_def)
  have w1: "w1 = snd (cache_delete env (cache_key uid) wb)"
    using first g c ne r cache_delete_total [of env "cache_key uid" wb]
    by (auto simp: delete_user_def seq_def ret_def dirty_def u1_def Let_def
        split: prod.splits sum.splits)
  have rows1: "rows w1 = write_rows (clock wa) [u1] (rows wa)"
    using db_commit_rows c r w1 by simp
  obtain v wc where g2: "cache_get env (cache_key uid) PNone w1 = (Inr v, wc)"
    using cache_get_total [of env "cache_key uid" PNone w1]
    by (cases "cache_get env (cache_key uid) PNone w1") auto
  have nt: "\<not> truthy v" using miss g2 by simp
  have rc: "rows wc = rows w1" using rows_cache_get [of env "cache_key uid" PNone w1] g2 by simp
  have "filter (\<lambda>u. id' u = uid \<and> deleted_at u = None) (rows wc) = []"
    using write_rows_deleted [OF d1(1)] d1(2) rc rows1 by (auto simp: filter_empty_conv)
  moreover have "db_answers wc" using answers g2 by simp
  ultimately have "fst (db_select (\<lambda>u. id' u = uid \<and> deleted_at u = None) wc) = Inr []"
    using db_select_answers by metis
  then obtain wd where s2: "db_select (\<lambda>u. id' u = uid \<and> deleted_at u = None) wc = (Inr [], wd)"
    by (cases "db_select (\<lambda>u. id' u = uid \<and> deleted_at u = None) wc") simp
  show ?thesis
    using g2 nt s2
    by (simp add: delete_user_def get_user_by_id_def seq_def ret_def lift_def
        scalar_one_or_none_def)
qed

subsection \<open>What token and password verification do catch\<close>

text \<open>
  Every \<open>JWTError\<close> of the library, and a payload without subject, give \<open>None\<close>; a
  result carries the integer value of the subject claim.
\<close>

lemma decode_access_token_invalid:
  "jwt_decode token = Inl e \<Longrightarrow> is_JWTError e
     \<Longrightarrow> decode_access_token jwt_decode token = Inr None"
  by (simp add: decode_access_token_def)

lemma decode_access_token_no_subject:
  "jwt_decode token = Inr payload \<Longrightarrow> dict_get payload ''sub'' = PNone
     \<Longrightarrow> decode_access_token jwt_decode token = Inr None"
  by (simp add: decode_access_token_def)

lemma decode_access_token_subject:
  "decode_access_token jwt_decode token = Inr (Some td)
     \<Longrightarrow> \<exists>payload i. jwt_decode token = Inr payload
           \<and> py_int (dict_get payload ''sub'') = Inr i \<and> user_id td = Some i"
  by (auto simp: decode_access_token_def Let_def split: sum.splits if_splits)

text \<open>\<open>verify_password\<close> returns a boolean whatever the library does.\<close>

lemma verify_password_never_raises:
  "\<exists>b. verify_password pwd_verify plain hashed = Inr b"
  by (cases "pwd_verify plain hashed") (auto simp: verify_password_def any_exception_def)

lemma verify_password_error_is_mismatch:
  "pwd_verify plain hashed = Inl e \<Longrightarrow> verify_password pwd_verify plain hashed = Inr False"
  by (simp add: verify_password_def any_exception_def)

end
